theory Spec2Isabelle
  imports Complex_Main "HOL-Library.Word"
begin

unbundle bit_operations_syntax

section \<open>Data model (Helper.h)\<close>

text \<open>
  The C \<open>int\<close> fields of the structs are modelled as \<open>int\<close>. The program only compares
  them and forms \<open>tm_hour + 1\<close>, \<open>minute + 60\<close> and \<open>minute - tm_min\<close>; none of these can
  leave the range of a 32-bit \<open>int\<close> for calendar values. The field \<open>done\<close> of the C
  struct is called \<open>done_flag\<close> here.
\<close>

definition MAX_ACTIVITIES :: nat where
  "MAX_ACTIVITIES = 10"

definition MAX_LENGTH :: nat where
  "MAX_LENGTH = 20"

record atime =
  hour :: int
  minute :: int

record activity =
  name :: string
  start_time :: atime
  end_time :: atime
  done_flag :: int

text \<open>Of \<open>struct tm\<close> the program reads and writes only \<open>tm_hour\<close> and \<open>tm_min\<close>.\<close>

record tm =
  tm_hour :: int
  tm_min :: int

section \<open>Activity matcher (Helper.c)\<close>

definition is_activity_time :: "activity \<Rightarrow> tm \<Rightarrow> bool" where
  "is_activity_time a t =
     (if hour (start_time a) < tm_hour t \<and> hour (end_time a) > tm_hour t then True
      else if hour (start_time a) = tm_hour t then
        (if minute (start_time a) \<le> tm_min t \<and> minute (end_time a) > tm_min t then True
         else if hour (end_time a) > tm_hour t \<and> minute (start_time a) \<le> tm_min t then True
         else False)
      else if hour (end_time a) = tm_hour t then
        (if minute (end_time a) > tm_min t then True else False)
      else False)"

subsection \<open>The half-open window of the specification\<close>

text \<open>Hour:minute lexical order on times of day, as the specification words it.\<close>

definition tod_less :: "int \<times> int \<Rightarrow> int \<times> int \<Rightarrow> bool" where
  "tod_less x y = (fst x < fst y \<or> (fst x = fst y \<and> snd x < snd y))"

definition tod_le :: "int \<times> int \<Rightarrow> int \<times> int \<Rightarrow> bool" where
  "tod_le x y = (tod_less x y \<or> x = y)"

definition in_window :: "int \<times> int \<Rightarrow> int \<times> int \<Rightarrow> int \<times> int \<Rightarrow> bool" where
  "in_window s e t = (tod_le s t \<and> tod_less t e)"

text \<open>The minute before a time of day (not defined at 00:00, where it is the day before).\<close>

definition minute_before :: "int \<times> int \<Rightarrow> int \<times> int" where
  "minute_before x = (if snd x = 0 then (fst x - 1, 59) else (fst x, snd x - 1))"

definition valid_tod :: "int \<times> int \<Rightarrow> bool" where
  "valid_tod x = (0 \<le> fst x \<and> fst x \<le> 23 \<and> 0 \<le> snd x \<and> snd x \<le> 59)"

definition mk_activity :: "string \<Rightarrow> int \<times> int \<Rightarrow> int \<times> int \<Rightarrow> int \<Rightarrow> activity" where
  "mk_activity n s e d =
     \<lparr>name = n, start_time = \<lparr>hour = fst s, minute = snd s\<rparr>,
      end_time = \<lparr>hour = fst e, minute = snd e\<rparr>, done_flag = d\<rparr>"

definition mk_tm :: "int \<times> int \<Rightarrow> tm" where
  "mk_tm x = \<lparr>tm_hour = fst x, tm_min = snd x\<rparr>"

definition start_tod :: "activity \<Rightarrow> int \<times> int" where
  "start_tod a = (hour (start_time a), minute (start_time a))"

definition end_tod :: "activity \<Rightarrow> int \<times> int" where
  "end_tod a = (hour (end_time a), minute (end_time a))"

definition now_tod :: "tm \<Rightarrow> int \<times> int" where
  "now_tod t = (tm_hour t, tm_min t)"

section \<open>Program state\<close>

text \<open>
  A call either returns or fails to: \<open>Blocked\<close> is a blocking \<open>scanf\<close> that never
  obtains an acceptable token (the call does not return), \<open>Overrun\<close> is a write past
  the end of a \<open>MAX_LENGTH\<close> buffer or of the activity array (undefined behaviour in C).
\<close>

datatype fault = Blocked | Overrun

text \<open>
  The function-static pair \<open>previous_min\<close>, \<open>check_flags\<close> that \<open>is_scheduled\<close> and
  \<open>is_due_soon\<close> each own. \<open>check_flags\<close> is a 32-bit \<open>int\<close> used as a bitmask.
\<close>

record latch =
  previous_min :: int
  check_flags :: "32 word"

text \<open>
  The globals of Helper.c and Source.c, the function-static variables, and the
  environment the program talks to. \<open>total_time\<close> is a C \<open>double\<close>, modelled as an exact
  real number. The environment: \<open>wall_clock\<close> is what \<open>time()\<close> returns at the first
  sample and \<open>utc_offset\<close> the local zone's offset in seconds; \<open>answers\<close> are the
  whitespace-delimited tokens that blocking \<open>scanf("%s")\<close> calls will obtain;
  \<open>stdin_chunks\<close> are the byte sequences that become available to successive
  non-blocking \<open>read\<close> calls (an empty one when nothing is pending); \<open>ticks\<close> gives, for
  each sample of the clock by the poll loop, how many iterations of the ticker thread
  \<open>increment\<close> completed since the previous one; \<open>out\<close> collects the text of every
  \<open>printf\<close>.
\<close>

record state =
  total_time :: real
  current_time :: int
  local_time :: tm
  delay_us :: int
  speed_factor :: int
  get_current_time_flag :: int
  is_scheduled_latch :: latch
  is_due_soon_latch :: latch
  idx :: nat
  temp_buf :: string
  wall_clock :: int
  utc_offset :: int
  answers :: "string list"
  stdin_chunks :: "string list"
  ticks :: "nat list"
  out :: "string list"

definition NUL :: char where
  "NUL = CHR 0x00"

definition NL :: char where
  "NL = CHR 0x0A"

definition TAB :: char where
  "TAB = CHR 0x09"

definition ESC :: char where
  "ESC = CHR 0x1B"

definition printf :: "string \<Rightarrow> state \<Rightarrow> state" where
  "printf x s = s\<lparr>out := out s @ [x]\<rparr>"

text \<open>
  \<open>delay_time\<close> busy-waits and \<open>input_mode\<close> switches the terminal between blocking and
  non-blocking reads; neither touches the modelled state. \<open>clear_terminal\<close> waits and
  prints two escape sequences.
\<close>

definition clear_terminal :: "state \<Rightarrow> state" where
  "clear_terminal s = printf (ESC # ''[0;0H'' @ [NL]) (printf (ESC # ''[2J'') s)"

section \<open>Input validation (Helper.c)\<close>

text \<open>
  The C library's \<open>sscanf(input, "%d:%d", &hour, &minute)\<close>. The directive \<open>%d\<close> skips
  white space, accepts an optional sign and then needs at least one decimal digit; it
  stops at the first character that is not a digit. The result holds the value stored
  by each conversion that succeeded, so that the return value of \<open>sscanf\<close> is 2 exactly
  when both are present.
\<close>

definition isspace :: "char \<Rightarrow> bool" where
  "isspace c = (c \<in> set [CHR 0x20, CHR 0x09, CHR 0x0A, CHR 0x0B, CHR 0x0C, CHR 0x0D])"

definition isdigit :: "char \<Rightarrow> bool" where
  "isdigit c = (48 \<le> (of_char c :: nat) \<and> (of_char c :: nat) \<le> 57)"

fun scan_digits :: "int \<Rightarrow> string \<Rightarrow> int \<times> string" where
  "scan_digits acc [] = (acc, [])"
| "scan_digits acc (c # cs) =
     (if isdigit c then scan_digits (10 * acc + (int (of_char c) - 48)) cs else (acc, c # cs))"

definition scan_d :: "string \<Rightarrow> (int \<times> string) option" where
  "scan_d inp =
     (case dropWhile isspace inp of
        [] \<Rightarrow> None
      | c # cs \<Rightarrow>
          (let neg = (c = CHR ''-'');
               ds = (if c = CHR ''-'' \<or> c = CHR ''+'' then cs else c # cs)
           in case ds of
                [] \<Rightarrow> None
              | d # _ \<Rightarrow>
                  if isdigit d
                  then (case scan_digits 0 ds of (v, r) \<Rightarrow> Some (if neg then - v else v, r))
                  else None))"

definition sscanf_d_colon_d :: "string \<Rightarrow> int option \<times> int option" where
  "sscanf_d_colon_d inp =
     (case scan_d inp of
        None \<Rightarrow> (None, None)
      | Some (h, r) \<Rightarrow>
          (case r of
             [] \<Rightarrow> (Some h, None)
           | c # cs \<Rightarrow>
               if c = CHR '':''
               then (case scan_d cs of None \<Rightarrow> (Some h, None) | Some (m, _) \<Rightarrow> (Some h, Some m))
               else (Some h, None)))"

definition check_input :: "string \<Rightarrow> int" where
  "check_input inp =
     (if inp = ''now'' then 1
      else if length inp \<noteq> 5 then 0
      else if inp ! 2 \<noteq> CHR '':'' then 0
      else case sscanf_d_colon_d inp of
             (Some h, Some m) \<Rightarrow> if h < 0 \<or> h > 23 \<or> m < 0 \<or> m > 59 then 0 else 1
           | _ \<Rightarrow> 0)"

section \<open>Interaction gate (Helper.c)\<close>

text \<open>
  The \<open>do ... while\<close> loop of \<open>activity_time\<close>: print the prompt, read a token, repeat
  until the token is \<open>yes\<close> or \<open>no\<close>. A token of \<open>MAX_LENGTH\<close> or more characters does
  not fit \<open>user_input\<close>. When the tokens run out the loop never leaves.
\<close>

fun ask_user :: "string \<Rightarrow> string list \<Rightarrow> string list \<Rightarrow> fault + (string \<times> string list \<times> string list)" where
  "ask_user nm [] os = Inl Blocked"
| "ask_user nm (w # ws) os =
     (if MAX_LENGTH \<le> length w then Inl Overrun
      else if (of_bool (w \<noteq> ''yes'') + of_bool (w \<noteq> ''no'')) \<noteq> (1 :: int)
        then ask_user nm ws (os @ [''Are you doing '' @ nm @ '' now? (yes/no)'' @ [TAB]])
      else Inr (w, ws, os @ [''Are you doing '' @ nm @ '' now? (yes/no)'' @ [TAB]]))"

definition activity_time :: "activity \<Rightarrow> state \<Rightarrow> fault + (int \<times> activity \<times> state)" where
  "activity_time a s =
     (if done_flag a = 0 then
        (case ask_user (name a) (answers s) (out s) of
           Inl f \<Rightarrow> Inl f
         | Inr (user_input, ws, os) \<Rightarrow>
             (let s1 = s\<lparr>answers := ws, out := os\<rparr> in
              if user_input = ''yes''
              then Inr (0, a\<lparr>done_flag := 1\<rparr>,
                        clear_terminal (printf (name a @ '' marked as done.'' @ [NL]) s1))
              else Inr (1, a, clear_terminal s1)))
      else Inr (1, a, clear_terminal (printf (''Chill, you've already done: '' @ name a @ [NL]) s)))"

section \<open>Simulated clock (Helper.c, Source.c)\<close>

text \<open>
  The C library's \<open>localtime\<close> for a zone with a fixed offset from UTC: the hour of the
  day and the minute of the hour of the shifted timestamp.
\<close>

definition localtime :: "int \<Rightarrow> int \<Rightarrow> tm" where
  "localtime off t = \<lparr>tm_hour = ((t + off) div 3600) mod 24, tm_min = ((t + off) div 60) mod 60\<rparr>"

text \<open>Conversion of a floating-point value to an integer type in C drops the fraction.\<close>

definition c_trunc :: "real \<Rightarrow> int" where
  "c_trunc x = (if 0 \<le> x then \<lfloor>x\<rfloor> else \<lceil>x\<rceil>)"

text \<open>
  \<open>get_time\<close>. The statement \<open>time_info->current_time += total_time\<close> adds a \<open>double\<close> to
  a \<open>time_t\<close>: the sum is formed in floating point and converted back to the integer
  type. The read and the reset of \<open>total_time\<close> are taken as one step: an increment of
  the ticker thread between them is not modelled.
\<close>

definition get_time :: "state \<Rightarrow> state" where
  "get_time s =
     (let s1 = (if get_current_time_flag s = 0
                then s\<lparr>current_time := wall_clock s, get_current_time_flag := 1\<rparr> else s);
          s2 = (if total_time s1 \<ge> 1
                then s1\<lparr>current_time := c_trunc (of_int (current_time s1) + total_time s1),
                        total_time := 0\<rparr>
                else s1)
      in s2\<lparr>local_time := localtime (utc_offset s2) (current_time s2)\<rparr>)"

text \<open>One iteration of the loop of the ticker thread \<open>increment\<close>.\<close>

definition increment :: "state \<Rightarrow> state" where
  "increment s =
     s\<lparr>total_time := total_time s + of_int (speed_factor s) * (of_int (delay_us s) / 1000000)\<rparr>"

section \<open>Edge-latched triggers (Helper.c)\<close>

text \<open>
  The index \<open>i\<close> is a C \<open>int\<close>; the callers pass \<open>0 .. MAX_ACTIVITIES - 1\<close>, and it is a
  natural number here. \<open>(check_flags >> i) & 1U\<close> tests bit \<open>i\<close> and
  \<open>check_flags |= 1UL << i\<close> sets it.
\<close>

definition flag_set :: "32 word \<Rightarrow> nat \<Rightarrow> bool" where
  "flag_set w i = ((drop_bit i w) AND 1 \<noteq> 0)"

definition is_scheduled :: "activity \<Rightarrow> nat \<Rightarrow> tm \<Rightarrow> state \<Rightarrow> fault + (int \<times> activity \<times> state)" where
  "is_scheduled a i t s =
     (let s1 = (if previous_min (is_scheduled_latch s) = 0
                then s\<lparr>is_scheduled_latch := (is_scheduled_latch s)\<lparr>previous_min := tm_min t\<rparr>\<rparr>
                else s)
      in case (if \<not> flag_set (check_flags (is_scheduled_latch s1)) i
                  \<and> hour (start_time a) = tm_hour t \<and> minute (start_time a) = tm_min t
               then (case activity_time a (printf (''Time for '' @ name a @ [NL]) s1) of
                       Inl f \<Rightarrow> Inl f
                     | Inr (r, a', s') \<Rightarrow> Inr (1, a', s'))
               else Inr (0, a, s1)) of
           Inl f \<Rightarrow> Inl f
         | Inr (return_val, a2, s2) \<Rightarrow>
             (let l3 = (is_scheduled_latch s2)
                         \<lparr>check_flags := check_flags (is_scheduled_latch s2) OR push_bit i 1\<rparr>;
                  l4 = (if tm_min t \<noteq> previous_min l3
                        then l3\<lparr>check_flags := 0, previous_min := tm_min t\<rparr> else l3)
              in Inr (return_val, a2, s2\<lparr>is_scheduled_latch := l4\<rparr>)))"

definition is_due_soon :: "activity \<Rightarrow> nat \<Rightarrow> tm \<Rightarrow> state \<Rightarrow> fault + (int \<times> activity \<times> state)" where
  "is_due_soon a i t s =
     (let s1 = (if previous_min (is_due_soon_latch s) = 0
                then s\<lparr>is_due_soon_latch := (is_due_soon_latch s)\<lparr>previous_min := tm_min t\<rparr>\<rparr>
                else s)
      in case (if \<not> flag_set (check_flags (is_due_soon_latch s1)) i
                  \<and> is_activity_time a t
                  \<and> ((hour (end_time a) = tm_hour t \<and> minute (end_time a) - tm_min t = 10)
                     \<or> (hour (end_time a) = tm_hour t + 1
                        \<and> (minute (end_time a) + 60) - tm_min t = 10))
               then (case activity_time a
                            (printf (''Don't forget to do '' @ name a @ '' in 10 minutes!'' @ [NL]) s1) of
                       Inl f \<Rightarrow> Inl f
                     | Inr (r, a', s') \<Rightarrow> Inr (1, a', s'))
               else Inr (0, a, s1)) of
           Inl f \<Rightarrow> Inl f
         | Inr (return_val, a2, s2) \<Rightarrow>
             (let l3 = (is_due_soon_latch s2)
                         \<lparr>check_flags := check_flags (is_due_soon_latch s2) OR push_bit i 1\<rparr>;
                  l4 = (if tm_min t \<noteq> previous_min l3
                        then l3\<lparr>check_flags := 0, previous_min := tm_min t\<rparr> else l3)
              in Inr (return_val, a2, s2\<lparr>is_due_soon_latch := l4\<rparr>)))"

section \<open>Time query (Helper.c)\<close>

text \<open>
  The loop of \<open>parse_time\<close>: \<open>parse_time_loop k\<close> runs the iterations for
  \<open>i = k - 1\<close> down to \<open>i = 0\<close>, carrying \<open>activity_status\<close>. The array has
  \<open>MAX_ACTIVITIES\<close> elements; an index past the end of the list is an overrun.
\<close>

fun parse_time_loop :: "nat \<Rightarrow> tm \<Rightarrow> activity list \<Rightarrow> state \<Rightarrow> int \<Rightarrow> fault + (activity list \<times> state \<times> int)" where
  "parse_time_loop 0 t a s activity_status = Inr (a, s, activity_status)"
| "parse_time_loop (Suc i) t a s activity_status =
     (if length a \<le> i then Inl Overrun
      else if is_activity_time (a ! i) t then
        (case activity_time (a ! i) (printf (''Time for '' @ name (a ! i) @ [NL]) s) of
           Inl f \<Rightarrow> Inl f
         | Inr (r, ai, s') \<Rightarrow> parse_time_loop i t (a[i := ai]) s' 0)
      else parse_time_loop i t a s activity_status)"

text \<open>
  \<open>localtime\<close> returns a pointer to one static \<open>struct tm\<close>, so \<open>t_local\<close> and
  \<open>time_info->local_time\<close> are the same object and the \<open>sscanf\<close> writes into it.
\<close>

definition parse_time :: "activity list \<Rightarrow> state \<Rightarrow> string \<Rightarrow> fault + (activity list \<times> state)" where
  "parse_time a s inp =
     (let t0 = localtime (utc_offset s) (current_time s);
          t_local = (if inp \<noteq> ''now''
                     then (case sscanf_d_colon_d inp of
                             (Some h, Some m) \<Rightarrow> t0\<lparr>tm_hour := h, tm_min := m\<rparr>
                           | (Some h, None) \<Rightarrow> t0\<lparr>tm_hour := h\<rparr>
                           | _ \<Rightarrow> t0)
                     else t0);
          s1 = s\<lparr>local_time := t_local\<rparr>
      in case parse_time_loop MAX_ACTIVITIES t_local a s1 1 of
           Inl f \<Rightarrow> Inl f
         | Inr (a', s2, activity_status) \<Rightarrow>
             Inr (a', clear_terminal
                        (if activity_status \<noteq> 0
                         then printf (''There is no activity to do.'' @ [NL]) s2 else s2)))"

section \<open>Non-blocking input (Helper.c)\<close>

text \<open>
  \<open>read(STDIN_FILENO, buf, count)\<close> on the non-blocking descriptor: at most \<open>count\<close>
  of the pending bytes, the others staying pending; nothing (a result \<open>n \<le> 0\<close>) when
  none are.
\<close>

definition read_stdin :: "nat \<Rightarrow> string list \<Rightarrow> string \<times> string list" where
  "read_stdin count cs =
     (case cs of
        [] \<Rightarrow> ([], [])
      | c # rest \<Rightarrow> (take count c, if count < length c then drop count c # rest else rest))"

text \<open>A C string ends before its first NUL byte.\<close>

definition c_str :: "string \<Rightarrow> string" where
  "c_str b = takeWhile (\<lambda>c. c \<noteq> NUL) b"

text \<open>\<open>strcpy(&dst[k], src)\<close>: the characters of \<open>src\<close> and the terminating NUL.\<close>

definition strcpy_at :: "nat \<Rightarrow> string \<Rightarrow> string \<Rightarrow> string" where
  "strcpy_at k src dst = take k dst @ src @ [NUL] @ drop (k + length src + 1) dst"

text \<open>
  \<open>temp_buf\<close> is the whole \<open>MAX_LENGTH\<close>-byte array. The function writes \<open>buf[n]\<close>,
  \<open>temp_buf[idx] ..\<close> (by \<open>strcpy\<close>) and \<open>temp_buf[idx - 1]\<close> without a bound check;
  each is an overrun when it falls outside its array.
\<close>

definition get_non_blocking_inputs :: "activity list \<Rightarrow> state \<Rightarrow> fault + (activity list \<times> state)" where
  "get_non_blocking_inputs a s =
     (case read_stdin MAX_LENGTH (stdin_chunks s) of
        (buf, pending) \<Rightarrow>
          (let n = length buf; s0 = s\<lparr>stdin_chunks := pending\<rparr> in
           if 0 < n then
             (if MAX_LENGTH \<le> n then Inl Overrun
              else if MAX_LENGTH < idx s0 + length (c_str buf) + 1 then Inl Overrun
              else
                (let s1 = s0\<lparr>temp_buf := strcpy_at (idx s0) (c_str buf) (temp_buf s0),
                             idx := idx s0 + n\<rparr>
                 in if buf ! (n - 1) = NL then
                      (if MAX_LENGTH < idx s1 then Inl Overrun
                       else
                         (let s2 = s1\<lparr>temp_buf := (temp_buf s1)[idx s1 - 1 := NUL]\<rparr>
                          in case (if check_input (c_str (temp_buf s2)) \<noteq> 0
                                   then parse_time a s2 (c_str (temp_buf s2))
                                   else Inr (a, printf (''Please enter a time ('' @ [CHR 0x22]
                                               @ ''now'' @ [CHR 0x22] @ '' or '' @ [CHR 0x22]
                                               @ ''HH:MM'' @ [CHR 0x22] @ '')'' @ [NL]) s2)) of
                               Inl f \<Rightarrow> Inl f
                             | Inr (a', s3) \<Rightarrow>
                                 Inr (a', s3\<lparr>temp_buf := replicate (idx s3) NUL
                                                           @ drop (idx s3) (temp_buf s3),
                                            idx := 0\<rparr>)))
                    else Inr (a, s1)))
           else Inr (a, s0)))"

section \<open>Poll loop (Source.c)\<close>

text \<open>The \<open>for\<close> loop of \<open>main\<close> over the activities, from index \<open>i\<close> on.\<close>

function check_activities :: "nat \<Rightarrow> activity list \<Rightarrow> state \<Rightarrow> fault + (activity list \<times> state)" where
  "check_activities i a s =
     (if i < MAX_ACTIVITIES then
        (if length a \<le> i then Inl Overrun
         else if done_flag (a ! i) = 0 then
           (case is_scheduled (a ! i) i (local_time s) s of
              Inl f \<Rightarrow> Inl f
            | Inr (r1, a1, s1) \<Rightarrow>
                (case is_due_soon a1 i (local_time s1) s1 of
                   Inl f \<Rightarrow> Inl f
                 | Inr (r2, a2, s2) \<Rightarrow> check_activities (Suc i) (a[i := a2]) s2))
         else check_activities (Suc i) a s)
      else Inr (a, s))"
  by pat_completeness auto
termination
  by (relation "measure (\<lambda>(i, a, s). MAX_ACTIVITIES - i)") auto

declare check_activities.simps [simp del]

text \<open>
  The ticker thread runs beside the poll loop; the head of \<open>ticks\<close> says how many of its
  iterations completed before the next sample (none once the list is used up).
\<close>

definition run_ticker :: "state \<Rightarrow> state" where
  "run_ticker s =
     (case ticks s of
        [] \<Rightarrow> s
      | k # ks \<Rightarrow> (increment ^^ k) (s\<lparr>ticks := ks\<rparr>))"

text \<open>The body of the \<open>while\<close> loop of \<open>main\<close>.\<close>

definition poll :: "activity list \<Rightarrow> state \<Rightarrow> fault + (activity list \<times> state)" where
  "poll a s =
     (case check_activities 0 a s of
        Inl f \<Rightarrow> Inl f
      | Inr (a1, s1) \<Rightarrow>
          (case get_non_blocking_inputs a1 s1 of
             Inl f \<Rightarrow> Inl f
           | Inr (a2, s2) \<Rightarrow> Inr (a2, get_time (run_ticker s2))))"

text \<open>
  The \<open>while\<close> loop of \<open>main\<close> and the \<open>return 0\<close> after it, run for at most \<open>fuel\<close>
  iterations: \<open>Some 0\<close> is the exit code of a run that left the loop, \<open>None\<close> says that
  the loop is still running when the fuel is used up.
\<close>

fun main_loop :: "nat \<Rightarrow> activity list \<Rightarrow> state \<Rightarrow> fault + (int option \<times> activity list \<times> state)" where
  "main_loop 0 a s = Inr (if tm_hour (local_time s) < 24 then None else Some 0, a, s)"
| "main_loop (Suc fuel) a s =
     (if tm_hour (local_time s) < 24 then
        (case poll a s of
           Inl f \<Rightarrow> Inl f
         | Inr (a', s') \<Rightarrow> main_loop fuel a' s')
      else Inr (Some 0, a, s))"

text \<open>The schedule compiled into \<open>main\<close>.\<close>

definition activities :: "activity list" where
  "activities =
     [mk_activity ''Breakfast'' (8, 50) (9, 30) 0,
      mk_activity ''Morning walk'' (9, 0) (10, 15) 0,
      mk_activity ''House cleaning'' (10, 20) (10, 55) 0,
      mk_activity ''Lunch'' (11, 0) (12, 0) 0,
      mk_activity ''Afternoon nap'' (13, 45) (15, 0) 0,
      mk_activity ''Grocery shopping'' (15, 20) (15, 45) 0,
      mk_activity ''Cooking'' (16, 15) (17, 30) 0,
      mk_activity ''Dinner'' (17, 45) (18, 30) 0,
      mk_activity ''Evening reading'' (19, 0) (21, 30) 0,
      mk_activity ''Get medicine'' (21, 30) (21, 45) 0]"

text \<open>
  The state in which \<open>main\<close> starts: the initial values of the globals and statics, for a
  given speed factor (what \<open>get_speed_factor\<close> stored) and a given environment.
\<close>

definition initial_state :: "int \<Rightarrow> int \<Rightarrow> int \<Rightarrow> string list \<Rightarrow> string list \<Rightarrow> nat list \<Rightarrow> state" where
  "initial_state speed clock off ans chunks tks =
     \<lparr>total_time = 0, current_time = 0, local_time = \<lparr>tm_hour = 0, tm_min = 0\<rparr>,
      delay_us = 100000, speed_factor = speed, get_current_time_flag = 0,
      is_scheduled_latch = \<lparr>previous_min = 0, check_flags = 0\<rparr>,
      is_due_soon_latch = \<lparr>previous_min = 0, check_flags = 0\<rparr>,
      idx = 0, temp_buf = replicate MAX_LENGTH NUL,
      wall_clock = clock, utc_offset = off, answers = ans, stdin_chunks = chunks,
      ticks = tks, out = []\<rparr>"

text \<open>
  \<open>main\<close> after \<open>get_speed_factor\<close>: the first sample of the clock, then the poll loop
  (\<open>do_terminal_setting\<close> and \<open>pthread_create\<close> leave the modelled state as it is).
\<close>

definition main :: "nat \<Rightarrow> state \<Rightarrow> fault + (int option \<times> activity list \<times> state)" where
  "main fuel s = main_loop fuel activities (get_time s)"

section \<open>Notions of the specification\<close>

text \<open>
  A sequence of calls of \<open>is_scheduled\<close> (of \<open>is_due_soon\<close>) for one activity and index,
  at the given times, with the values they return.
\<close>

fun is_scheduled_calls :: "activity \<Rightarrow> nat \<Rightarrow> tm list \<Rightarrow> state \<Rightarrow> fault + (int list \<times> activity \<times> state)" where
  "is_scheduled_calls a i [] s = Inr ([], a, s)"
| "is_scheduled_calls a i (t # ts) s =
     (case is_scheduled a i t s of
        Inl f \<Rightarrow> Inl f
      | Inr (r, a', s') \<Rightarrow>
          (case is_scheduled_calls a' i ts s' of
             Inl f \<Rightarrow> Inl f
           | Inr (rs, a'', s'') \<Rightarrow> Inr (r # rs, a'', s'')))"

fun is_due_soon_calls :: "activity \<Rightarrow> nat \<Rightarrow> tm list \<Rightarrow> state \<Rightarrow> fault + (int list \<times> activity \<times> state)" where
  "is_due_soon_calls a i [] s = Inr ([], a, s)"
| "is_due_soon_calls a i (t # ts) s =
     (case is_due_soon a i t s of
        Inl f \<Rightarrow> Inl f
      | Inr (r, a', s') \<Rightarrow>
          (case is_due_soon_calls a' i ts s' of
             Inl f \<Rightarrow> Inl f
           | Inr (rs, a'', s'') \<Rightarrow> Inr (r # rs, a'', s'')))"

text \<open>
  The minutes that remain until the end of an activity, as the specification computes
  them: within the hour of the end, and across one hour rollover.
\<close>

definition minutes_to_end :: "activity \<Rightarrow> tm \<Rightarrow> int option" where
  "minutes_to_end a t =
     (if hour (end_time a) = tm_hour t then Some (minute (end_time a) - tm_min t)
      else if hour (end_time a) = tm_hour t + 1 then Some (minute (end_time a) + 60 - tm_min t)
      else None)"

text \<open>
  The prompt of the gate gets an answer: among the pending tokens there is a \<open>yes\<close> or
  \<open>no\<close>, and it and the tokens before it fit the buffer. A done activity is not asked.
\<close>

fun answered :: "string list \<Rightarrow> bool" where
  "answered [] = False"
| "answered (w # ws) = (length w < MAX_LENGTH \<and> (w = ''yes'' \<or> w = ''no'' \<or> answered ws))"

definition gate_answered :: "activity \<Rightarrow> state \<Rightarrow> bool" where
  "gate_answered a s = (if done_flag a = 0 then answered (answers s) else True)"

text \<open>
  The query sweep as the specification describes it: the time asked for, the indices of
  the activities whose window contains it, in reverse index order, and the gate applied
  to each of them in turn.
\<close>

definition query_time :: "state \<Rightarrow> string \<Rightarrow> tm" where
  "query_time s inp =
     (if inp = ''now'' then localtime (utc_offset s) (current_time s)
      else case sscanf_d_colon_d inp of
             (Some h, Some m) \<Rightarrow> \<lparr>tm_hour = h, tm_min = m\<rparr>
           | (Some h, None) \<Rightarrow> (localtime (utc_offset s) (current_time s))\<lparr>tm_hour := h\<rparr>
           | _ \<Rightarrow> localtime (utc_offset s) (current_time s))"

definition matching :: "activity list \<Rightarrow> tm \<Rightarrow> nat list" where
  "matching a t = filter (\<lambda>i. is_activity_time (a ! i) t) (rev [0..<MAX_ACTIVITIES])"

fun gate_each :: "nat list \<Rightarrow> activity list \<Rightarrow> state \<Rightarrow> fault + (activity list \<times> state)" where
  "gate_each [] a s = Inr (a, s)"
| "gate_each (i # js) a s =
     (case activity_time (a ! i) (printf (''Time for '' @ name (a ! i) @ [NL]) s) of
        Inl f \<Rightarrow> Inl f
      | Inr (r, ai, s') \<Rightarrow> gate_each js (a[i := ai]) s')"

text \<open>The only change the \<open>done\<close> flag of an activity may undergo: none, or from 0 to 1.\<close>

definition done_step :: "activity \<Rightarrow> activity \<Rightarrow> bool" where
  "done_step a a' = (done_flag a' = done_flag a \<or> (done_flag a = 0 \<and> done_flag a' = 1))"

definition done_steps :: "activity list \<Rightarrow> activity list \<Rightarrow> bool" where
  "done_steps a a' = list_all2 done_step a a'"

text \<open>The text of the due-soon notice.\<close>

definition due_soon_notice :: "activity \<Rightarrow> string" where
  "due_soon_notice a = ''Don't forget to do '' @ name a @ '' in 10 minutes!'' @ [NL]"

text \<open>The values a sequence of calls returned, when all of them returned.\<close>

definition return_values :: "fault + (int list \<times> activity \<times> state) \<Rightarrow> int list option" where
  "return_values r = (case r of Inl f \<Rightarrow> None | Inr (rs, a, s) \<Rightarrow> Some rs)"

section \<open>Theorems\<close>

subsection \<open>The ticker in closed form\<close>

text \<open>
  \<open>k\<close> iterations of the ticker add \<open>k\<close> times the same amount; runs of the program
  are evaluated with this equation.
\<close>

lemma funpow_increment:
  "(increment ^^ k) s =
     s\<lparr>total_time := total_time s
          + of_nat k * (of_int (speed_factor s) * (of_int (delay_us s) / 1000000))\<rparr>"
proof (induction k)
  case 0
  then show ?case by simp
next
  case (Suc k)
  then show ?case by (simp add: increment_def algebra_simps)
qed

lemma run_ticker_code [code]:
  "run_ticker s =
     (case ticks s of
        [] \<Rightarrow> s
      | k # ks \<Rightarrow>
          s\<lparr>ticks := ks,
            total_time := total_time s
              + of_nat k * (of_int (speed_factor s) * (of_int (delay_us s) / 1000000))\<rparr>)"
  by (simp add: run_ticker_def funpow_increment split: list.splits)

lemmas tod_defs =
  tod_less_def tod_le_def in_window_def minute_before_def valid_tod_def
  mk_activity_def mk_tm_def start_tod_def end_tod_def now_tod_def

lemma window_iff:
  "valid_tod (start_tod a) \<Longrightarrow> valid_tod (end_tod a) \<Longrightarrow> tod_less (start_tod a) (end_tod a) \<Longrightarrow>
   valid_tod (now_tod t) \<Longrightarrow>
   (is_activity_time a t \<longleftrightarrow> in_window (start_tod a) (end_tod a) (now_tod t))"
  unfolding is_activity_time_def tod_defs fst_conv snd_conv prod.inject
  by presburger

lemma window_at_start:
  "valid_tod (start_tod a) \<Longrightarrow> valid_tod (end_tod a) \<Longrightarrow> tod_less (start_tod a) (end_tod a) \<Longrightarrow>
   is_activity_time a (mk_tm (start_tod a))"
  by (simp add: is_activity_time_def tod_defs) linarith

lemma window_before_end:
  "valid_tod (start_tod a) \<Longrightarrow> valid_tod (end_tod a) \<Longrightarrow> tod_less (start_tod a) (end_tod a) \<Longrightarrow>
   is_activity_time a (mk_tm (minute_before (end_tod a)))"
  by (simp add: is_activity_time_def tod_defs) presburger

lemma window_at_end:
  "valid_tod (start_tod a) \<Longrightarrow> valid_tod (end_tod a) \<Longrightarrow> tod_less (start_tod a) (end_tod a) \<Longrightarrow>
   \<not> is_activity_time a (mk_tm (end_tod a))"
  by (simp add: is_activity_time_def tod_defs)

lemma window_before_start:
  "valid_tod (start_tod a) \<Longrightarrow> valid_tod (end_tod a) \<Longrightarrow> tod_less (start_tod a) (end_tod a) \<Longrightarrow>
   start_tod a \<noteq> (0, 0) \<Longrightarrow> \<not> is_activity_time a (mk_tm (minute_before (start_tod a)))"
  by (simp add: is_activity_time_def tod_defs)

text \<open>
  C2. For every activity whose start is before its end in hour:minute lexical order, with
  hours in 0..23 and minutes in 0..59, and every time \<open>t\<close> in the same ranges,
  \<open>is_activity_time\<close> is true if and only if \<open>t\<close> lies in the half-open window
  \<open>[start, end)\<close>. In particular it is true at the start and at the minute before the
  end, false at the end and (when the start is not 00:00, which has no minute before it
  in the day) at the minute before the start.
\<close>

theorem is_activity_time_half_open:
  "valid_tod (start_tod a) \<Longrightarrow> valid_tod (end_tod a) \<Longrightarrow> tod_less (start_tod a) (end_tod a) \<Longrightarrow>
   (\<forall>t. valid_tod (now_tod t) \<longrightarrow>
      (is_activity_time a t \<longleftrightarrow> in_window (start_tod a) (end_tod a) (now_tod t)))
   \<and> is_activity_time a (mk_tm (start_tod a))
   \<and> is_activity_time a (mk_tm (minute_before (end_tod a)))
   \<and> \<not> is_activity_time a (mk_tm (end_tod a))
   \<and> (start_tod a \<noteq> (0, 0) \<longrightarrow> \<not> is_activity_time a (mk_tm (minute_before (start_tod a))))"
  using window_iff window_at_start window_before_end window_at_end window_before_start
  by blast

theorem is_activity_time_half_open_witness:
  "valid_tod (start_tod (mk_activity ''Lunch'' (11, 0) (12, 0) 0))
   \<and> valid_tod (end_tod (mk_activity ''Lunch'' (11, 0) (12, 0) 0))
   \<and> tod_less (start_tod (mk_activity ''Lunch'' (11, 0) (12, 0) 0))
        (end_tod (mk_activity ''Lunch'' (11, 0) (12, 0) 0))
   \<and> valid_tod (now_tod (mk_tm (11, 1)))
   \<and> is_activity_time (mk_activity ''Lunch'' (11, 0) (12, 0) 0) (mk_tm (11, 1))
   \<and> in_window (11, 0) (12, 0) (11, 1)
   \<and> is_activity_time (mk_activity ''Lunch'' (11, 0) (12, 0) 0) (mk_tm (11, 0))
   \<and> is_activity_time (mk_activity ''Lunch'' (11, 0) (12, 0) 0) (mk_tm (11, 59))
   \<and> \<not> is_activity_time (mk_activity ''Lunch'' (11, 0) (12, 0) 0) (mk_tm (12, 0))
   \<and> \<not> is_activity_time (mk_activity ''Lunch'' (11, 0) (12, 0) 0) (mk_tm (10, 59))"
proof -
  let ?L = "mk_activity ''Lunch'' (11, 0) (12, 0) 0"
  have s: "start_tod ?L = (11, 0)" and e: "end_tod ?L = (12, 0)"
    by (simp_all add: tod_defs)
  have h1: "valid_tod (start_tod ?L)" and h2: "valid_tod (end_tod ?L)"
    and h3: "tod_less (start_tod ?L) (end_tod ?L)"
    by (simp_all add: tod_defs)
  have n: "valid_tod (now_tod (mk_tm (11, 1)))"
    by (simp add: tod_defs)
  note c = is_activity_time_half_open [OF h1 h2 h3]
  from c have "valid_tod (now_tod (mk_tm (11, 1))) \<longrightarrow>
      (is_activity_time ?L (mk_tm (11, 1)) \<longleftrightarrow> in_window (start_tod ?L) (end_tod ?L) (now_tod (mk_tm (11, 1))))"
    by blast
  with n have w: "is_activity_time ?L (mk_tm (11, 1)) \<longleftrightarrow> in_window (11, 0) (12, 0) (11, 1)"
    by (simp add: s e now_tod_def mk_tm_def)
  have i: "in_window (11, 0) (12, 0) (11, 1)"
    by (simp add: tod_defs)
  from c have b: "is_activity_time ?L (mk_tm (start_tod ?L))"
      "is_activity_time ?L (mk_tm (minute_before (end_tod ?L)))"
      "\<not> is_activity_time ?L (mk_tm (end_tod ?L))"
      "start_tod ?L \<noteq> (0, 0) \<longrightarrow> \<not> is_activity_time ?L (mk_tm (minute_before (start_tod ?L)))"
    by blast+
  have m: "minute_before (12, 0) = (11, 59)" "minute_before (11, 0) = (10, 59)"
    by (simp_all add: minute_before_def)
  from b have "is_activity_time ?L (mk_tm (11, 0))" "is_activity_time ?L (mk_tm (11, 59))"
      "\<not> is_activity_time ?L (mk_tm (12, 0))" "\<not> is_activity_time ?L (mk_tm (10, 59))"
    by (simp_all add: s e m)
  with h1 h2 h3 n w i show ?thesis
    by blast
qed

subsection \<open>The poll loop never leaves\<close>

lemma localtime_hour: "0 \<le> tm_hour (localtime off t) \<and> tm_hour (localtime off t) < 24"
  by (simp add: localtime_def)

lemma get_time_hour: "tm_hour (local_time (get_time s)) < 24"
  by (simp add: get_time_def Let_def localtime_hour)

lemma poll_hour: "poll a s = Inr (a', s') \<Longrightarrow> tm_hour (local_time s') < 24"
  by (auto simp: poll_def get_time_hour split: sum.splits)

lemma main_loop_running:
  "tm_hour (local_time s) < 24 \<Longrightarrow> main_loop fuel a s = Inr (c, a', s') \<Longrightarrow> c = None"
proof (induction fuel arbitrary: a s)
  case 0
  then show ?case by simp
next
  case (Suc fuel)
  then show ?case
    by (auto split: sum.splits dest: poll_hour)
qed

text \<open>
  C1. The claim: the poll loop ends, and the process exits with code 0, exactly when the
  sampled simulated hour reaches 24, and it never loops past that point. The code does
  not do so. The loop tests \<open>tm_hour < 24\<close> on the result of \<open>localtime\<close>, whose hour is
  always in 0..23, so the test never fails: for every amount of fuel, every start state
  and every environment, \<open>main\<close> does not return an exit code. In the run below the
  clock starts at 23:59:59 and advances 3 simulated seconds per poll; after three polls
  the simulated time is 8 seconds past 24:00, the sampled hour reads 0, and the loop is
  still running.
\<close>

theorem main_never_exits:
  "main fuel s \<noteq> Inr (Some code, a', s')
   \<and> (case main 3 (initial_state 30 86399 0 [] [] [1, 1, 1]) of
        Inl f \<Rightarrow> False
      | Inr (c, a, s) \<Rightarrow>
          c = None \<and> current_time s = 86408 \<and> local_time s = \<lparr>tm_hour = 0, tm_min = 0\<rparr>)"
proof
  show "main fuel s \<noteq> Inr (Some code, a', s')"
    using main_loop_running [OF get_time_hour, of fuel activities s "Some code" a' s']
    by (auto simp: main_def)
  show "case main 3 (initial_state 30 86399 0 [] [] [1, 1, 1]) of
        Inl f \<Rightarrow> False
      | Inr (c, a, s) \<Rightarrow>
          c = None \<and> current_time s = 86408 \<and> local_time s = \<lparr>tm_hour = 0, tm_min = 0\<rparr>"
    by code_simp
qed

subsection \<open>The latch\<close>

lemmas run_defs = is_scheduled_def is_due_soon_def activity_time_def initial_state_def
  mk_activity_def mk_tm_def flag_set_def printf_def clear_terminal_def Let_def
  is_activity_time_def MAX_LENGTH_def return_values_def

text \<open>
  The gate does not touch the latches, and a call whose minute differs from a remembered
  minute other than 0 does clear the mask.
\<close>

lemma activity_time_latches:
  "activity_time a s = Inr (r, a', s') \<Longrightarrow>
   is_scheduled_latch s' = is_scheduled_latch s \<and> is_due_soon_latch s' = is_due_soon_latch s"
  by (auto simp: activity_time_def Let_def clear_terminal_def printf_def split: if_splits sum.splits)

lemma is_scheduled_clears_on_change:
  assumes "previous_min (is_scheduled_latch s) \<noteq> 0"
    and "tm_min t \<noteq> previous_min (is_scheduled_latch s)"
    and "is_scheduled a i t s = Inr (r, a', s')"
  shows "is_scheduled_latch s' = \<lparr>previous_min = tm_min t, check_flags = 0\<rparr>"
  using assms unfolding is_scheduled_def Let_def
  by (auto simp: printf_def split: if_splits sum.splits dest!: activity_time_latches)

lemma is_due_soon_clears_on_change:
  assumes "previous_min (is_due_soon_latch s) \<noteq> 0"
    and "tm_min t \<noteq> previous_min (is_due_soon_latch s)"
    and "is_due_soon a i t s = Inr (r, a', s')"
  shows "is_due_soon_latch s' = \<lparr>previous_min = tm_min t, check_flags = 0\<rparr>"
  using assms unfolding is_due_soon_def Let_def
  by (auto simp: printf_def split: if_splits sum.splits dest!: activity_time_latches)

text \<open>
  C3. The claim: whenever the minute passed to \<open>is_scheduled\<close> (or \<open>is_due_soon\<close>)
  differs from the minute observed by the previous call, the whole bitmask is cleared,
  whatever the two minutes are. The code does not do so when the previous minute is 0:
  \<open>if (!previous_min) previous_min = t->tm_min\<close> takes minute 0 for "not yet set" and
  overwrites it with the new minute before the comparison. Below, from the initial
  statics, a call for index 3 at 10:00 leaves \<open>previous_min = 0\<close> with bit 3 set; the
  next call at 10:01 leaves \<open>previous_min = 1\<close> and bit 3 still set, for both functions.
\<close>

theorem latch_not_cleared_after_minute_zero:
  "is_scheduled_calls (mk_activity ''Lunch'' (11, 0) (12, 0) 0) 3 [mk_tm (10, 0)]
       (initial_state 1 0 0 [] [] [])
     = Inr ([0], mk_activity ''Lunch'' (11, 0) (12, 0) 0,
            (initial_state 1 0 0 [] [] [])
              \<lparr>is_scheduled_latch := \<lparr>previous_min = 0, check_flags = 8\<rparr>\<rparr>)
   \<and> is_scheduled_calls (mk_activity ''Lunch'' (11, 0) (12, 0) 0) 3 [mk_tm (10, 0), mk_tm (10, 1)]
       (initial_state 1 0 0 [] [] [])
     = Inr ([0, 0], mk_activity ''Lunch'' (11, 0) (12, 0) 0,
            (initial_state 1 0 0 [] [] [])
              \<lparr>is_scheduled_latch := \<lparr>previous_min = 1, check_flags = 8\<rparr>\<rparr>)
   \<and> is_due_soon_calls (mk_activity ''Lunch'' (11, 0) (12, 0) 0) 3 [mk_tm (10, 0), mk_tm (10, 1)]
       (initial_state 1 0 0 [] [] [])
     = Inr ([0, 0], mk_activity ''Lunch'' (11, 0) (12, 0) 0,
            (initial_state 1 0 0 [] [] [])
              \<lparr>is_due_soon_latch := \<lparr>previous_min = 1, check_flags = 8\<rparr>\<rparr>)
   \<and> flag_set 8 3"
  by (simp add: run_defs)

text \<open>
  C6. The claim: once \<open>is_scheduled\<close> (or \<open>is_due_soon\<close>) has fired for index \<open>i\<close> in minute
  \<open>M\<close>, it does not fire for \<open>i\<close> again while the observed minute stays \<open>M\<close>. The code
  does not guarantee it: a call sets bit \<open>i\<close> and only then compares the minutes, so a
  call that fires and is also the first of its minute clears the bit it has just set.
  Below, calls for Breakfast (index 0, start 08:50, end 09:30) at 08:48, 08:49, 08:50
  and again 08:50, the user answering \<open>no\<close>: the third and the fourth call both fire.
  Likewise for the due-soon trigger at 09:18, 09:19, 09:20, 09:20. The third part is a
  run of \<open>main\<close> at speed factor 5 from 08:48:59: the second poll (08:49:00) receives the
  query \<open>10:30\<close>, whose prompt holds the loop for 60 simulated seconds; the third poll
  (08:50:00) announces Breakfast, the user answers \<open>no\<close> within 25 simulated seconds,
  and the fourth poll (08:50:25) announces Breakfast again in the same minute.
\<close>

theorem latch_fires_twice_in_one_minute:
  "return_values (is_scheduled_calls (mk_activity ''Breakfast'' (8, 50) (9, 30) 0) 0
       [mk_tm (8, 48), mk_tm (8, 49), mk_tm (8, 50), mk_tm (8, 50)]
       (initial_state 1 0 0 [''no'', ''no''] [] [])) = Some [0, 0, 1, 1]
   \<and> return_values (is_due_soon_calls (mk_activity ''Breakfast'' (8, 50) (9, 30) 0) 0
       [mk_tm (9, 18), mk_tm (9, 19), mk_tm (9, 20), mk_tm (9, 20)]
       (initial_state 1 0 0 [''no'', ''no''] [] [])) = Some [0, 0, 1, 1]
   \<and> (case main 4 (initial_state 5 31739 0 [''no'', ''no'', ''no'']
                         [[], ''10:30'' @ [NL], [], []] [2, 120, 50, 2]) of
        Inl f \<Rightarrow> False
      | Inr (c, a, s) \<Rightarrow>
          current_time s = 31826 \<and> local_time s = \<lparr>tm_hour = 8, tm_min = 50\<rparr>
          \<and> filter (\<lambda>l. take 8 l = ''Time for'') (out s)
              = [''Time for House cleaning'' @ [NL], ''Time for Breakfast'' @ [NL],
                 ''Time for Breakfast'' @ [NL]])"
proof (intro conjI)
  show "case main 4 (initial_state 5 31739 0 [''no'', ''no'', ''no'']
                         [[], ''10:30'' @ [NL], [], []] [2, 120, 50, 2]) of
        Inl f \<Rightarrow> False
      | Inr (c, a, s) \<Rightarrow>
          current_time s = 31826 \<and> local_time s = \<lparr>tm_hour = 8, tm_min = 50\<rparr>
          \<and> filter (\<lambda>l. take 8 l = ''Time for'') (out s)
              = [''Time for House cleaning'' @ [NL], ''Time for Breakfast'' @ [NL],
                 ''Time for Breakfast'' @ [NL]]"
    by code_simp
qed (simp_all add: run_defs)

subsection \<open>The simulated clock\<close>

text \<open>
  C4. The claim: \<open>get_time\<close> folds the pending offset into the timestamp and clears the
  accumulator without losing simulated time, so that the amount applied to
  \<open>current_time\<close> equals the offset produced. The code loses the fraction: the sum is
  converted to the integer \<open>time_t\<close> and \<open>total_time\<close> is set to 0. Below, at speed
  factor 15 one tick of the ticker produces 1.5 simulated seconds (15 times 0.1 is
  exactly 1.5 in IEEE double arithmetic as well); the next sample advances
  \<open>current_time\<close> by 1 and leaves nothing pending.
\<close>

theorem get_time_drops_fraction:
  "total_time (increment (get_time (initial_state 15 1000000 0 [] [] []))) = 3 / 2
   \<and> current_time (get_time (initial_state 15 1000000 0 [] [] [])) = 1000000
   \<and> current_time (get_time (increment (get_time (initial_state 15 1000000 0 [] [] []))))
       = 1000001
   \<and> total_time (get_time (increment (get_time (initial_state 15 1000000 0 [] [] [])))) = 0"
  by (simp add: get_time_def increment_def initial_state_def c_trunc_def Let_def)

subsection \<open>Input validation and the line accumulator\<close>

text \<open>
  C7. The claim: \<open>check_input\<close> returns 1 if and only if the line is \<open>now\<close> or five
  characters \<open>HH:MM\<close> with digits only in the four numeric positions and values in range.
  The code accepts more: \<open>%d\<close> skips white space, takes a sign and stops at the first
  non-digit, so lines with a letter, a blank or a sign in a numeric position pass. The
  five examples of the claim behave as it says.
\<close>

theorem check_input_accepts_non_digits:
  "check_input ''12:5x'' = 1 \<and> check_input '' 5:30'' = 1 \<and> check_input ''+1:+5'' = 1
   \<and> check_input ''now'' = 1 \<and> check_input ''12:30'' = 1 \<and> check_input ''9:30'' = 0
   \<and> check_input ''24:00'' = 0 \<and> check_input ''12:60'' = 0"
  by (simp add: check_input_def sscanf_d_colon_d_def scan_d_def isspace_def isdigit_def)

text \<open>
  C8. The claim: a line terminator anywhere in the bytes read in one poll, not only at
  their end, makes \<open>get_non_blocking_inputs\<close> validate the line accumulated up to it.
  The code looks at the last byte only (it compares \<open>buf[n - 1]\<close> with the newline). Below, the read returns
  \<open>now\<close>, a newline and \<open>1\<close>: nothing is validated, no query is made, and the five bytes stay
  in the accumulator. The next read returns \<open>2:30\<close> and a newline: the accumulated line,
  which holds both inputs and the newline between them, is rejected with the format
  hint and discarded.
\<close>

theorem newline_inside_chunk_not_validated:
  "get_non_blocking_inputs activities
       (initial_state 1 0 0 [] [''now'' @ [NL] @ ''1'', ''2:30'' @ [NL]] [])
     = Inr (activities,
            (initial_state 1 0 0 [] [''now'' @ [NL] @ ''1'', ''2:30'' @ [NL]] [])
              \<lparr>stdin_chunks := [''2:30'' @ [NL]],
               temp_buf := ''now'' @ [NL] @ ''1'' @ replicate 15 NUL, idx := 5\<rparr>)
   \<and> get_non_blocking_inputs activities
       ((initial_state 1 0 0 [] [''now'' @ [NL] @ ''1'', ''2:30'' @ [NL]] [])
              \<lparr>stdin_chunks := [''2:30'' @ [NL]],
               temp_buf := ''now'' @ [NL] @ ''1'' @ replicate 15 NUL, idx := 5\<rparr>)
     = Inr (activities,
            (initial_state 1 0 0 [] [] [])
              \<lparr>out := [''Please enter a time ('' @ [CHR 0x22] @ ''now'' @ [CHR 0x22] @ '' or ''
                        @ [CHR 0x22] @ ''HH:MM'' @ [CHR 0x22] @ '')'' @ [NL]]\<rparr>)"
  by (simp add: get_non_blocking_inputs_def read_stdin_def initial_state_def MAX_LENGTH_def
        c_str_def NUL_def NL_def strcpy_at_def Let_def check_input_def printf_def)
    (simp add: eval_nat_numeral)

subsection \<open>The due-soon trigger\<close>

lemma ask_user_answered:
  "answered ws \<Longrightarrow> \<exists>w ws' rest. ask_user nm ws os = Inr (w, ws', os @ rest)"
proof (induction ws arbitrary: os)
  case Nil
  then show ?case by simp
next
  case (Cons w ws)
  show ?case
  proof (cases "w = ''yes'' \<or> w = ''no''")
    case True
    with Cons.prems show ?thesis by auto
  next
    case False
    with Cons.prems have rest: "answered ws" and fits: "length w < MAX_LENGTH" by auto
    let ?os = "os @ [''Are you doing '' @ nm @ '' now? (yes/no)'' @ [TAB]]"
    from Cons.IH [OF rest, of ?os]
    obtain w' ws' rest where "ask_user nm ws ?os = Inr (w', ws', ?os @ rest)"
      by blast
    with False fits show ?thesis
      by auto
  qed
qed

lemma activity_time_returns:
  assumes "gate_answered a s"
  shows "\<exists>r a' s' rest. activity_time a s = Inr (r, a', s') \<and> out s' = out s @ rest"
proof (cases "done_flag a = 0")
  case True
  with assms have "answered (answers s)" by (simp add: gate_answered_def)
  from ask_user_answered [OF this, of "name a" "out s"]
  obtain w ws' rest where "ask_user (name a) (answers s) (out s) = Inr (w, ws', out s @ rest)"
    by blast
  with True show ?thesis
    by (simp add: activity_time_def Let_def clear_terminal_def printf_def)
next
  case False
  then show ?thesis
    by (simp add: activity_time_def clear_terminal_def printf_def)
qed

lemma due_soon_condition:
  "(is_activity_time a t \<and> minutes_to_end a t = Some 10) \<longleftrightarrow>
   (is_activity_time a t
    \<and> ((hour (end_time a) = tm_hour t \<and> minute (end_time a) - tm_min t = 10)
       \<or> (hour (end_time a) = tm_hour t + 1 \<and> (minute (end_time a) + 60) - tm_min t = 10)))"
  by (auto simp: minutes_to_end_def)

lemma is_due_soon_fires:
  assumes "\<not> flag_set (check_flags (is_due_soon_latch s)) i" and "gate_answered a s"
    and "is_activity_time a t \<and> minutes_to_end a t = Some 10"
  shows "\<exists>a' s' rest. is_due_soon a i t s = Inr (1, a', s')
           \<and> out s' = out s @ due_soon_notice a # rest"
proof -
  let ?s1 = "(if previous_min (is_due_soon_latch s) = 0
                then s\<lparr>is_due_soon_latch := (is_due_soon_latch s)\<lparr>previous_min := tm_min t\<rparr>\<rparr>
                else s)"
  have a: "answers ?s1 = answers s" and o: "out ?s1 = out s" by simp_all
  have "gate_answered a (printf (due_soon_notice a) ?s1)"
    using assms(2) by (simp add: gate_answered_def printf_def)
  from activity_time_returns [OF this] obtain r a' s' rest where
    g: "activity_time a (printf (due_soon_notice a) ?s1) = Inr (r, a', s')"
    and "out s' = out (printf (due_soon_notice a) ?s1) @ rest" by blast
  then have o': "out s' = out s @ due_soon_notice a # rest"
    by (simp add: printf_def)
  have c: "\<not> flag_set (check_flags (is_due_soon_latch ?s1)) i" using assms(1) by simp
  show ?thesis
    unfolding is_due_soon_def Let_def
    using c assms(3) g o' unfolding due_soon_condition due_soon_notice_def
    by simp
qed

lemma is_due_soon_quiet:
  assumes "\<not> (is_activity_time a t \<and> minutes_to_end a t = Some 10)"
  shows "\<exists>s'. is_due_soon a i t s = Inr (0, a, s') \<and> out s' = out s"
  using assms unfolding due_soon_condition is_due_soon_def Let_def
  by auto

text \<open>
  C5. While the latch bit of index \<open>i\<close> is clear (and the prompt of the gate gets its
  answer, so that the call returns), \<open>is_due_soon\<close> fires, that is prints the due-soon
  notice and returns 1, if and only if \<open>is_activity_time\<close> holds and the minutes that
  remain until the end are exactly 10, counted as \<open>end.minute - t.min\<close> within the hour
  of the end and as \<open>end.minute + 60 - t.min\<close> in the hour before it. Otherwise it
  returns 0 and prints nothing.
\<close>

theorem is_due_soon_fires_iff:
  assumes "\<not> flag_set (check_flags (is_due_soon_latch s)) i" and "gate_answered a s"
  shows "((\<exists>a' s' rest. is_due_soon a i t s = Inr (1, a', s')
             \<and> out s' = out s @ due_soon_notice a # rest)
          \<longleftrightarrow> is_activity_time a t \<and> minutes_to_end a t = Some 10)
       \<and> ((\<exists>s'. is_due_soon a i t s = Inr (0, a, s') \<and> out s' = out s)
          \<longleftrightarrow> \<not> (is_activity_time a t \<and> minutes_to_end a t = Some 10))"
proof (cases "is_activity_time a t \<and> minutes_to_end a t = Some 10")
  case True
  from is_due_soon_fires [OF assms True] obtain a' s' rest where
    "is_due_soon a i t s = Inr (1, a', s')" and "out s' = out s @ due_soon_notice a # rest"
    by blast
  with True show ?thesis by auto
next
  case False
  from is_due_soon_quiet [OF False, of i s] obtain s' where
    "is_due_soon a i t s = Inr (0, a, s')" and "out s' = out s"
    by blast
  with False show ?thesis by auto
qed

theorem is_due_soon_fires_iff_witness:
  "\<not> flag_set (check_flags (is_due_soon_latch (initial_state 1 0 0 [''no''] [] []))) 3
   \<and> gate_answered (mk_activity ''Lunch'' (11, 0) (12, 0) 0) (initial_state 1 0 0 [''no''] [] [])
   \<and> is_activity_time (mk_activity ''Lunch'' (11, 0) (12, 0) 0) (mk_tm (11, 50))
   \<and> minutes_to_end (mk_activity ''Lunch'' (11, 0) (12, 0) 0) (mk_tm (11, 50)) = Some 10
   \<and> (\<exists>a' s' rest.
         is_due_soon (mk_activity ''Lunch'' (11, 0) (12, 0) 0) 3 (mk_tm (11, 50))
             (initial_state 1 0 0 [''no''] [] []) = Inr (1, a', s')
         \<and> out s' = out (initial_state 1 0 0 [''no''] [] [])
                      @ due_soon_notice (mk_activity ''Lunch'' (11, 0) (12, 0) 0) # rest)
   \<and> \<not> is_activity_time (mk_activity ''Lunch'' (11, 0) (12, 0) 0) (mk_tm (12, 50))
   \<and> (\<exists>s'. is_due_soon (mk_activity ''Lunch'' (11, 0) (12, 0) 0) 3 (mk_tm (12, 50))
               (initial_state 1 0 0 [''no''] [] [])
             = Inr (0, mk_activity ''Lunch'' (11, 0) (12, 0) 0, s')
           \<and> out s' = out (initial_state 1 0 0 [''no''] [] []))"
proof -
  let ?L = "mk_activity ''Lunch'' (11, 0) (12, 0) 0"
  let ?s = "initial_state 1 0 0 [''no''] [] []"
  have h1: "\<not> flag_set (check_flags (is_due_soon_latch ?s)) 3"
    by (simp add: initial_state_def flag_set_def)
  have h2: "gate_answered ?L ?s"
    by (simp add: gate_answered_def initial_state_def mk_activity_def MAX_LENGTH_def)
  have c: "is_activity_time ?L (mk_tm (11, 50))" "minutes_to_end ?L (mk_tm (11, 50)) = Some 10"
    by (simp_all add: is_activity_time_def minutes_to_end_def mk_activity_def mk_tm_def)
  have n: "\<not> is_activity_time ?L (mk_tm (12, 50))"
    by (simp add: is_activity_time_def mk_activity_def mk_tm_def)
  from is_due_soon_fires_iff [OF h1 h2, of "mk_tm (11, 50)"] c
  have f: "\<exists>a' s' rest. is_due_soon ?L 3 (mk_tm (11, 50)) ?s = Inr (1, a', s')
             \<and> out s' = out ?s @ due_soon_notice ?L # rest"
    by blast
  from is_due_soon_fires_iff [OF h1 h2, of "mk_tm (12, 50)"] n
  have q: "\<exists>s'. is_due_soon ?L 3 (mk_tm (12, 50)) ?s = Inr (0, ?L, s') \<and> out s' = out ?s"
    by blast
  from h1 h2 c n f q show ?thesis
    by blast
qed

subsection \<open>The time query\<close>

lemma parse_time_loop_gate:
  "k \<le> length a \<Longrightarrow>
   parse_time_loop k t a s st =
     (case gate_each (filter (\<lambda>i. is_activity_time (a ! i) t) (rev [0..<k])) a s of
        Inl f \<Rightarrow> Inl f
      | Inr (a', s') \<Rightarrow>
          Inr (a', s', if filter (\<lambda>i. is_activity_time (a ! i) t) (rev [0..<k]) = [] then st else 0))"
proof (induction k arbitrary: a s st)
  case 0
  then show ?case by simp
next
  case (Suc k)
  then have k: "k < length a" by simp
  show ?case
  proof (cases "is_activity_time (a ! k) t")
    case False
    with k Suc.IH [of a s st] show ?thesis by simp
  next
    case True
    show ?thesis
    proof (cases "activity_time (a ! k) (printf (''Time for '' @ name (a ! k) @ [NL]) s)")
      case (Inl f)
      with k True show ?thesis by simp
    next
      case (Inr x)
      obtain r ai s' where x: "x = (r, ai, s')" by (cases x) auto
      have same: "filter (\<lambda>i. is_activity_time (a[k := ai] ! i) t) (rev [0..<k])
                = filter (\<lambda>i. is_activity_time (a ! i) t) (rev [0..<k])"
        by (rule filter_cong) auto
      from k have "k \<le> length (a[k := ai])" by simp
      from Suc.IH [OF this, of s' 0] same
      have "parse_time_loop k t (a[k := ai]) s' 0 =
        (case gate_each (filter (\<lambda>i. is_activity_time (a ! i) t) (rev [0..<k])) (a[k := ai]) s' of
           Inl f \<Rightarrow> Inl f
         | Inr (a', s'') \<Rightarrow> Inr (a', s'', 0))"
        by (simp split: sum.splits)
      with k True Inr x show ?thesis by simp
    qed
  qed
qed

lemma t_local_query_time:
  "(if inp \<noteq> ''now''
    then (case sscanf_d_colon_d inp of
            (Some h, Some m) \<Rightarrow>
              (localtime (utc_offset s) (current_time s))\<lparr>tm_hour := h, tm_min := m\<rparr>
          | (Some h, None) \<Rightarrow> (localtime (utc_offset s) (current_time s))\<lparr>tm_hour := h\<rparr>
          | _ \<Rightarrow> localtime (utc_offset s) (current_time s))
    else localtime (utc_offset s) (current_time s)) = query_time s inp"
  by (simp add: query_time_def split: prod.splits option.splits)

text \<open>
  C9. \<open>parse_time\<close> goes through the activities from the last index down to 0; every
  activity whose window contains the query time according to \<open>is_activity_time\<close>, and
  no other, is announced and passed to the gate \<open>activity_time\<close>, done or not, in that
  order; and the no-activity notice is printed if and only if no window contains the
  query time. Here \<open>matching\<close> lists exactly the indices below \<open>MAX_ACTIVITIES\<close> whose
  window contains the query time, in decreasing order, and \<open>gate_each\<close> passes each
  activity of a list of indices to the gate. When none matches, the call returns having
  printed the notice.
\<close>

theorem parse_time_sweep:
  "length a = MAX_ACTIVITIES \<Longrightarrow>
   parse_time a s inp =
     (case gate_each (matching a (query_time s inp)) a (s\<lparr>local_time := query_time s inp\<rparr>) of
        Inl f \<Rightarrow> Inl f
      | Inr (a', s') \<Rightarrow>
          Inr (a', clear_terminal
                     (if matching a (query_time s inp) = []
                      then printf (''There is no activity to do.'' @ [NL]) s' else s')))
   \<and> (\<forall>i. i \<in> set (matching a (query_time s inp)) \<longleftrightarrow>
            i < MAX_ACTIVITIES \<and> is_activity_time (a ! i) (query_time s inp))
   \<and> sorted (rev (matching a (query_time s inp)))
   \<and> distinct (matching a (query_time s inp))
   \<and> (matching a (query_time s inp) = [] \<longrightarrow>
        parse_time a s inp =
          Inr (a, clear_terminal (printf (''There is no activity to do.'' @ [NL])
                                    (s\<lparr>local_time := query_time s inp\<rparr>))))"
proof (intro conjI)
  assume len: "length a = MAX_ACTIVITIES"
  then have "MAX_ACTIVITIES \<le> length a" by simp
  note l = parse_time_loop_gate [OF this]
  show eq: "parse_time a s inp =
     (case gate_each (matching a (query_time s inp)) a (s\<lparr>local_time := query_time s inp\<rparr>) of
        Inl f \<Rightarrow> Inl f
      | Inr (a', s') \<Rightarrow>
          Inr (a', clear_terminal
                     (if matching a (query_time s inp) = []
                      then printf (''There is no activity to do.'' @ [NL]) s' else s')))"
    unfolding parse_time_def Let_def t_local_query_time l matching_def
    by (simp split: sum.splits)
  show "matching a (query_time s inp) = [] \<longrightarrow>
        parse_time a s inp =
          Inr (a, clear_terminal (printf (''There is no activity to do.'' @ [NL])
                                    (s\<lparr>local_time := query_time s inp\<rparr>)))"
    using eq by simp
next
  show "\<forall>i. i \<in> set (matching a (query_time s inp)) \<longleftrightarrow>
            i < MAX_ACTIVITIES \<and> is_activity_time (a ! i) (query_time s inp)"
    by (auto simp: matching_def)
next
  have "rev (matching a (query_time s inp))
        = filter (\<lambda>i. is_activity_time (a ! i) (query_time s inp)) [0..<MAX_ACTIVITIES]"
    by (simp add: matching_def rev_filter)
  then show "sorted (rev (matching a (query_time s inp)))"
    by (simp add: sorted_wrt_filter)
next
  show "distinct (matching a (query_time s inp))"
    by (simp add: matching_def)
qed

theorem parse_time_sweep_witness:
  "length activities = MAX_ACTIVITIES
   \<and> matching activities (query_time (initial_state 1 0 0 [''no'', ''yes''] [] []) ''09:10'') = [1, 0]
   \<and> parse_time activities (initial_state 1 0 0 [''no'', ''yes''] [] []) ''09:10''
       = (case gate_each [1, 0] activities
                 ((initial_state 1 0 0 [''no'', ''yes''] [] [])\<lparr>local_time := \<lparr>tm_hour = 9, tm_min = 10\<rparr>\<rparr>) of
            Inl f \<Rightarrow> Inl f
          | Inr (a', s') \<Rightarrow> Inr (a', clear_terminal s'))
   \<and> (case parse_time activities (initial_state 1 0 0 [''no'', ''yes''] [] []) ''09:10'' of
         Inl f \<Rightarrow> False
       | Inr (a', s') \<Rightarrow>
           map done_flag a' = [1, 0, 0, 0, 0, 0, 0, 0, 0, 0]
           \<and> filter (\<lambda>l. take 8 l = ''Time for'') (out s')
               = [''Time for Morning walk'' @ [NL], ''Time for Breakfast'' @ [NL]])"
proof -
  let ?s = "initial_state 1 0 0 [''no'', ''yes''] [] []"
  have len: "length activities = MAX_ACTIVITIES"
    by (simp add: activities_def MAX_ACTIVITIES_def)
  have q: "query_time ?s ''09:10'' = \<lparr>tm_hour = 9, tm_min = 10\<rparr>"
    by (simp add: query_time_def sscanf_d_colon_d_def scan_d_def isspace_def isdigit_def)
  have m: "matching activities \<lparr>tm_hour = 9, tm_min = 10\<rparr> = [1, 0]"
    by code_simp
  note th = parse_time_sweep [OF len, of ?s "''09:10''", THEN conjunct1, unfolded q m]
  have e: "parse_time activities ?s ''09:10''
       = (case gate_each [1, 0] activities (?s\<lparr>local_time := \<lparr>tm_hour = 9, tm_min = 10\<rparr>\<rparr>) of
            Inl f \<Rightarrow> Inl f
          | Inr (a', s') \<Rightarrow> Inr (a', clear_terminal s'))"
    using th by (simp only: list.distinct if_False)
  have r: "case parse_time activities ?s ''09:10'' of
         Inl f \<Rightarrow> False
       | Inr (a', s') \<Rightarrow>
           map done_flag a' = [1, 0, 0, 0, 0, 0, 0, 0, 0, 0]
           \<and> filter (\<lambda>l. take 8 l = ''Time for'') (out s')
               = [''Time for Morning walk'' @ [NL], ''Time for Breakfast'' @ [NL]]"
    by code_simp
  from len q m e r show ?thesis
    by simp
qed

subsection \<open>The done flag\<close>

lemma done_step_refl: "done_step a a"
  by (simp add: done_step_def)

lemma done_step_trans: "done_step a b \<Longrightarrow> done_step b c \<Longrightarrow> done_step a c"
  by (auto simp: done_step_def)

lemma done_steps_refl: "done_steps a a"
  by (simp add: done_steps_def list_all2_refl done_step_refl)

lemma done_steps_trans: "done_steps a b \<Longrightarrow> done_steps b c \<Longrightarrow> done_steps a c"
  unfolding done_steps_def
  by (erule (1) list_all2_trans [rotated]) (rule done_step_trans)

lemma done_steps_update: "i < length a \<Longrightarrow> done_step (a ! i) b \<Longrightarrow> done_steps a (a[i := b])"
  unfolding done_steps_def
  by (auto simp: list_all2_conv_all_nth nth_list_update done_step_refl)

lemma activity_time_done: "activity_time a s = Inr (r, a', s') \<Longrightarrow> done_step a a'"
  by (auto simp: activity_time_def done_step_def Let_def split: if_splits sum.splits)

lemma is_scheduled_done: "is_scheduled a i t s = Inr (r, a', s') \<Longrightarrow> done_step a a'"
  unfolding is_scheduled_def Let_def
  by (auto split: if_splits sum.splits dest: activity_time_done simp: done_step_refl)

lemma is_due_soon_done: "is_due_soon a i t s = Inr (r, a', s') \<Longrightarrow> done_step a a'"
  unfolding is_due_soon_def Let_def
  by (auto split: if_splits sum.splits dest: activity_time_done simp: done_step_refl)

lemma parse_time_loop_done:
  "parse_time_loop k t a s st = Inr (a', s', st') \<Longrightarrow> done_steps a a'"
proof (induction k arbitrary: a s st)
  case 0
  then show ?case by (simp add: done_steps_refl)
next
  case (Suc k)
  show ?case
  proof (cases "is_activity_time (a ! k) t")
    case False
    with Suc show ?thesis by (auto split: if_splits)
  next
    case True
    with Suc.prems obtain r ai s1 where k: "k < length a"
      and g: "activity_time (a ! k) (printf (''Time for '' @ name (a ! k) @ [NL]) s) = Inr (r, ai, s1)"
      and l: "parse_time_loop k t (a[k := ai]) s1 0 = Inr (a', s', st')"
      by (auto split: if_splits sum.splits)
    from done_steps_update [OF k activity_time_done [OF g]] Suc.IH [OF l]
    show ?thesis by (rule done_steps_trans)
  qed
qed

lemma parse_time_done: "parse_time a s inp = Inr (a', s') \<Longrightarrow> done_steps a a'"
  unfolding parse_time_def Let_def
  by (auto split: sum.splits dest: parse_time_loop_done)

lemma get_non_blocking_inputs_done:
  "get_non_blocking_inputs a s = Inr (a', s') \<Longrightarrow> done_steps a a'"
  unfolding get_non_blocking_inputs_def Let_def
  by (auto split: prod.splits if_splits sum.splits dest: parse_time_done simp: done_steps_refl)

lemma check_activities_done:
  "check_activities i a s = Inr (a', s') \<Longrightarrow> done_steps a a'"
proof (induction i a s rule: check_activities.induct)
  case (1 i a s)
  show ?case
  proof (cases "i < MAX_ACTIVITIES")
    case False
    with "1.prems" show ?thesis
      by (simp add: check_activities.simps [of i a s] done_steps_refl)
  next
    case True
    note lt = this
    show ?thesis
    proof (cases "length a \<le> i")
      case True
      with lt "1.prems" show ?thesis
        by (simp add: check_activities.simps [of i a s])
    next
      case False
      note len = this
      show ?thesis
      proof (cases "done_flag (a ! i) = 0")
        case False
        with lt len "1.prems" have "check_activities (Suc i) a s = Inr (a', s')"
          by (simp add: check_activities.simps [of i a s])
        from "1.IH"(2) [OF lt len False this] show ?thesis .
      next
        case True
        with lt len "1.prems" obtain r1 a1 s1 r2 a2 s2 where
          c1: "is_scheduled (a ! i) i (local_time s) s = Inr (r1, a1, s1)"
          and c2: "is_due_soon a1 i (local_time s1) s1 = Inr (r2, a2, s2)"
          and c3: "check_activities (Suc i) (a[i := a2]) s2 = Inr (a', s')"
          by (auto simp: check_activities.simps [of i a s] split: sum.splits)
        have "done_step (a ! i) a2"
          using is_scheduled_done [OF c1] is_due_soon_done [OF c2] by (rule done_step_trans)
        with len have u: "done_steps a (a[i := a2])"
          by (simp add: done_steps_update)
        from "1.IH"(1) [OF lt len True c1 refl refl c2 refl refl c3]
        have "done_steps (a[i := a2]) a'" .
        with u show ?thesis by (rule done_steps_trans)
      qed
    qed
  qed
qed

lemma poll_done: "poll a s = Inr (a', s') \<Longrightarrow> done_steps a a'"
  unfolding poll_def
  by (auto split: sum.splits
      intro: done_steps_trans [OF check_activities_done get_non_blocking_inputs_done])

lemma main_loop_done: "main_loop fuel a s = Inr (c, a', s') \<Longrightarrow> done_steps a a'"
proof (induction fuel arbitrary: a s)
  case 0
  then show ?case by (simp add: done_steps_refl)
next
  case (Suc fuel)
  then show ?case
    by (auto split: if_splits sum.splits intro: done_steps_trans [OF poll_done]
        simp: done_steps_refl)
qed

text \<open>
  C10. No operation of the program resets a done activity: across the gate, the two
  triggers, the time query, the non-blocking input step, the checks of one poll, a
  whole poll and any number of polls of the main loop, the \<open>done\<close> flag of every activity
  either keeps its value or goes from 0 to 1 (\<open>done_step\<close>, for arrays element by
  element \<open>done_steps\<close>). So an activity that is done stays done.
\<close>

theorem done_flag_never_reset:
  "(activity_time a s = Inr (r, a', s') \<longrightarrow> done_step a a')
   \<and> (is_scheduled a i t s = Inr (r, a', s') \<longrightarrow> done_step a a')
   \<and> (is_due_soon a i t s = Inr (r, a', s') \<longrightarrow> done_step a a')
   \<and> (parse_time as s inp = Inr (as', s') \<longrightarrow> done_steps as as')
   \<and> (get_non_blocking_inputs as s = Inr (as', s') \<longrightarrow> done_steps as as')
   \<and> (check_activities 0 as s = Inr (as', s') \<longrightarrow> done_steps as as')
   \<and> (poll as s = Inr (as', s') \<longrightarrow> done_steps as as')
   \<and> (main_loop fuel as s = Inr (c, as', s') \<longrightarrow> done_steps as as')
   \<and> (main fuel s = Inr (c, as', s') \<longrightarrow> done_steps activities as')
   \<and> (done_steps as as' \<longrightarrow>
        length as' = length as
        \<and> (\<forall>k<length as. done_flag (as ! k) \<noteq> 0 \<longrightarrow> done_flag (as' ! k) = done_flag (as ! k)))"
proof (intro conjI impI)
  assume "done_steps as as'"
  then show "length as' = length as"
    by (simp add: done_steps_def list_all2_lengthD)
  show "\<forall>k<length as. done_flag (as ! k) \<noteq> 0 \<longrightarrow> done_flag (as' ! k) = done_flag (as ! k)"
    using \<open>done_steps as as'\<close>
    by (auto simp: done_steps_def list_all2_conv_all_nth done_step_def)
qed (auto simp: main_def
      dest: activity_time_done is_scheduled_done is_due_soon_done parse_time_done
        get_non_blocking_inputs_done check_activities_done poll_done main_loop_done)

theorem done_flag_never_reset_witness:
  "(case main 2 (initial_state 30 39600 0 [''yes''] [] [1, 1]) of
      Inl f \<Rightarrow> False
    | Inr (c, as', s') \<Rightarrow>
        map done_flag as' = [0, 0, 0, 1, 0, 0, 0, 0, 0, 0]
        \<and> done_steps activities as' \<and> length as' = length activities
        \<and> filter (\<lambda>l. take 8 l = ''Time for'') (out s') = [''Time for Lunch'' @ [NL]])"
proof -
  let ?s = "initial_state 30 39600 0 [''yes''] [] [1, 1]"
  have "case main 2 ?s of
      Inl f \<Rightarrow> False
    | Inr (c, as', s') \<Rightarrow>
        map done_flag as' = [0, 0, 0, 1, 0, 0, 0, 0, 0, 0]
        \<and> filter (\<lambda>l. take 8 l = ''Time for'') (out s') = [''Time for Lunch'' @ [NL]]"
    by code_simp
  then obtain c as' s' where m: "main 2 ?s = Inr (c, as', s')"
    and d: "map done_flag as' = [0, 0, 0, 1, 0, 0, 0, 0, 0, 0]"
    and o: "filter (\<lambda>l. take 8 l = ''Time for'') (out s') = [''Time for Lunch'' @ [NL]]"
    by (auto split: sum.splits)
  note th = done_flag_never_reset [where fuel = 2 and s = ?s and c = c and as' = as' and s' = s'
      and as = activities]
  from th m have k: "done_steps activities as'"
    by blast
  with th have "length as' = length activities"
    by blast
  with m d o k show ?thesis
    by simp
qed

end
